theory Spec2Isabelle
  imports Complex_Main "HOL-Library.Multiset"
begin

section \<open>Directory listing parser and summary of \<open>aws_ssh_client.py\<close>\<close>

text \<open>
  The theory embeds the three pure parts of class \<open>AWSSSHClient\<close>: the parser inside
  \<open>list_directory\<close>, the aggregation inside \<open>get_directory_summary\<close> and the size
  parser \<open>_parse_size\<close> (here \<open>parse_size\<close>: an Isabelle name cannot start with an
  underscore). The remote command is the one external effect; its completed result
  (\<open>stdout\<close>, \<open>stderr\<close>, \<open>exit_code\<close>) is a parameter of the model.

  Conventions of the embedding:
  \<^item> A Python \<open>str\<close> is a HOL \<open>string\<close>; a \<open>char\<close> stands for the code point of the same
    number, so the model covers the code points 0 to 255. On that range \<open>str.isspace\<close>
    and \<open>str.isdigit\<close> are embedded exactly, including the two non-ASCII blanks and
    the three superscript digits.
  \<^item> A Python \<open>float\<close> is an exact rational (\<open>rat\<close>): rounding and overflow of binary
    floating point are not modelled.
  \<^item> A raised exception is the left summand of \<open>py_error + 'a\<close>.
\<close>

subsection \<open>Built-in string operations\<close>

definition py_isspace :: "char \<Rightarrow> bool" where
  "py_isspace c = (c \<in> set [CHR 0x09, CHR 0x0A, CHR 0x0B, CHR 0x0C, CHR 0x0D,
                             CHR 0x1C, CHR 0x1D, CHR 0x1E, CHR 0x1F, CHR 0x20,
                             CHR 0x85, CHR 0xA0])"

definition ascii_digit :: "char \<Rightarrow> bool" where
  "ascii_digit c = (c \<in> set ''0123456789'')"

definition py_isdigit_char :: "char \<Rightarrow> bool" where
  "py_isdigit_char c = (ascii_digit c \<or> c \<in> set [CHR 0xB2, CHR 0xB3, CHR 0xB9])"

text \<open>\<open>s.isdigit()\<close>: at least one character, and every character is a digit.\<close>

definition isdigit :: "string \<Rightarrow> bool" where
  "isdigit s = (s \<noteq> [] \<and> list_all py_isdigit_char s)"

text \<open>\<open>s.replace(c, '')\<close> for a one-character \<open>c\<close>.\<close>

definition remove_char :: "char \<Rightarrow> string \<Rightarrow> string" where
  "remove_char c s = filter (\<lambda>x. x \<noteq> c) s"

text \<open>\<open>s.endswith(c)\<close> for a one-character \<open>c\<close>, and \<open>s.startswith(p)\<close>.\<close>

definition endswith :: "string \<Rightarrow> char \<Rightarrow> bool" where
  "endswith s c = (s \<noteq> [] \<and> last s = c)"

definition startswith :: "string \<Rightarrow> string \<Rightarrow> bool" where
  "startswith s p = (take (length p) s = p)"

text \<open>\<open>s.strip()\<close> removes blanks at both ends.\<close>

definition lstrip :: "string \<Rightarrow> string" where
  "lstrip s = dropWhile py_isspace s"

definition rstrip :: "string \<Rightarrow> string" where
  "rstrip s = rev (dropWhile py_isspace (rev s))"

definition strip :: "string \<Rightarrow> string" where
  "strip s = rstrip (lstrip s)"

text \<open>\<open>s.split(sep)\<close> for a one-character separator: never the empty list.\<close>

fun split_on :: "char \<Rightarrow> string \<Rightarrow> string list" where
  "split_on sep [] = [[]]"
| "split_on sep (c # cs) =
     (if c = sep then [] # split_on sep cs
      else (case split_on sep cs of [] \<Rightarrow> [[c]] | l # ls \<Rightarrow> (c # l) # ls))"

text \<open>
  \<open>s.split()\<close> without argument: the maximal runs of non-blank characters. The first
  argument is the run read so far.
\<close>

fun split_ws :: "string \<Rightarrow> string \<Rightarrow> string list" where
  "split_ws cur [] = (if cur = [] then [] else [cur])"
| "split_ws cur (c # cs) =
     (if py_isspace c then (if cur = [] then split_ws [] cs else cur # split_ws [] cs)
      else split_ws (cur @ [c]) cs)"

definition py_split :: "string \<Rightarrow> string list" where
  "py_split s = split_ws [] s"

text \<open>\<open>' '.join(ws)\<close>.\<close>

fun join_space :: "string list \<Rightarrow> string" where
  "join_space [] = []"
| "join_space [w] = w"
| "join_space (w # ws) = w @ '' '' @ join_space ws"

subsection \<open>Numbers and their rendering\<close>

datatype py_error = ValueError string

text \<open>
  \<open>float(s)\<close>. Every call in the source is guarded by an \<open>isdigit\<close> test of the string
  with some of \<open>.\<close>, \<open>K\<close>, \<open>M\<close>, \<open>G\<close> removed, so the argument holds only digits, dots
  and those three letters. On such strings \<open>float\<close> accepts exactly the decimal
  literals (ASCII digits around at most one dot, with at least one digit) and raises
  \<open>ValueError\<close> on all others; signs, exponents, blanks and underscores, which
  \<open>float\<close> accepts in general, cannot reach it.
\<close>

definition is_decimal :: "string \<Rightarrow> bool" where
  "is_decimal s = (list_all (\<lambda>c. ascii_digit c \<or> c = CHR ''.'') s
                   \<and> length (filter (\<lambda>c. c = CHR ''.'') s) \<le> 1
                   \<and> filter ascii_digit s \<noteq> [])"

definition digit_val :: "char \<Rightarrow> nat" where
  "digit_val c = of_char c - 48"

definition digits_val :: "string \<Rightarrow> nat" where
  "digits_val s = foldl (\<lambda>a c. 10 * a + digit_val c) 0 s"

definition dec_value :: "string \<Rightarrow> rat" where
  "dec_value s = of_nat (digits_val (remove_char CHR ''.'' s))
                 / 10 ^ length (tl (dropWhile (\<lambda>c. c \<noteq> CHR ''.'') s))"

definition py_float :: "string \<Rightarrow> py_error + rat" where
  "py_float s = (if is_decimal s then Inr (dec_value s) else Inl (ValueError s))"

text \<open>
  \<open>str(e)\<close> of the \<open>ValueError\<close> that \<open>float\<close> raises. The argument is shown by
  \<open>repr\<close>, which for the strings that reach \<open>float\<close> here only adds the quotes.
\<close>

fun str_error :: "py_error \<Rightarrow> string" where
  "str_error (ValueError s) = ''could not convert string to float: '' @ [CHR 0x27] @ s @ [CHR 0x27]"

text \<open>Decimal rendering of integers, as \<open>str(int)\<close> and the format specs produce it.\<close>

definition digit_char :: "nat \<Rightarrow> char" where
  "digit_char n = ''0123456789'' ! n"

fun show_nat :: "nat \<Rightarrow> string" where
  "show_nat n = (if n < 10 then [digit_char n] else show_nat (n div 10) @ [digit_char (n mod 10)])"

declare show_nat.simps [simp del]

definition show_int :: "int \<Rightarrow> string" where
  "show_int i = (if i < 0 then ''-'' @ show_nat (nat (- i)) else show_nat (nat i))"

text \<open>\<open>int(x)\<close> truncates towards zero.\<close>

definition py_int :: "rat \<Rightarrow> int" where
  "py_int x = (if 0 \<le> x then \<lfloor>x\<rfloor> else \<lceil>x\<rceil>)"

text \<open>
  The format spec \<open>.1f\<close>: one digit after the point, the nearest such value, a tie
  going to the even digit.
\<close>

definition round_half_even :: "rat \<Rightarrow> int" where
  "round_half_even x =
     (let f = \<lfloor>x\<rfloor>; r = x - of_int f
      in if r < 1 / 2 then f else if 1 / 2 < r then f + 1 else if even f then f else f + 1)"

definition fmt_1f :: "rat \<Rightarrow> string" where
  "fmt_1f x =
     (let n = nat (round_half_even (\<bar>x\<bar> * 10))
      in (if x < 0 then ''-'' else []) @ show_nat (n div 10) @ ''.'' @ show_nat (n mod 10))"

subsection \<open>\<open>_parse_size\<close>\<close>

definition parse_size :: "string \<Rightarrow> py_error + rat" where
  "parse_size size_str =
     (if size_str = [] \<or>
         \<not> isdigit (remove_char CHR ''G'' (remove_char CHR ''M''
                       (remove_char CHR ''K'' (remove_char CHR ''.'' size_str))))
      then Inr 0
      else if endswith size_str CHR ''K'' then
        (case py_float (butlast size_str) of Inl e \<Rightarrow> Inl e | Inr x \<Rightarrow> Inr (x * 1024))
      else if endswith size_str CHR ''M'' then
        (case py_float (butlast size_str) of Inl e \<Rightarrow> Inl e | Inr x \<Rightarrow> Inr (x * 1024 * 1024))
      else if endswith size_str CHR ''G'' then
        (case py_float (butlast size_str) of Inl e \<Rightarrow> Inl e
         | Inr x \<Rightarrow> Inr (x * 1024 * 1024 * 1024))
      else if isdigit (remove_char CHR ''.'' size_str) then py_float size_str
      else Inr 0)"

subsection \<open>\<open>list_directory\<close>\<close>

record exec_result =
  stdout :: string
  stderr :: string
  exit_code :: int

text \<open>The dictionary built for one line; its keys are fixed, so it is a record.\<close>

record file_info =
  permissions :: string
  links :: string
  owner :: string
  group_f :: string
  size_f :: string
  month :: string
  day :: string
  time_f :: string
  name_f :: string

definition file_info_of :: "string list \<Rightarrow> file_info" where
  "file_info_of parts =
     \<lparr>permissions = parts ! 0, links = parts ! 1, owner = parts ! 2, group_f = parts ! 3,
      size_f = parts ! 4, month = parts ! 5, day = parts ! 6, time_f = parts ! 7,
      name_f = join_space (drop 8 parts)\<rparr>"

text \<open>The \<open>for line in lines\<close> loop; \<open>files\<close> is the list appended to.\<close>

fun parse_lines :: "file_info list \<Rightarrow> string list \<Rightarrow> file_info list" where
  "parse_lines files [] = files"
| "parse_lines files (line # lines) =
     (if strip line \<noteq> [] then
        (if 9 \<le> length (py_split line)
         then parse_lines (files @ [file_info_of (py_split line)]) lines
         else parse_lines files lines)
      else parse_lines files lines)"

text \<open>\<open>if lines and lines[0].startswith('total'): lines = lines[1:]\<close>\<close>

definition skip_total :: "string list \<Rightarrow> string list" where
  "skip_total lines =
     (if lines \<noteq> [] \<and> startswith (hd lines) ''total'' then tl lines else lines)"

definition listing_lines :: "string \<Rightarrow> string list" where
  "listing_lines out = skip_total (split_on CHR 0x0A (strip out))"

definition list_directory :: "exec_result \<Rightarrow> file_info list" where
  "list_directory result =
     (if exit_code result \<noteq> 0 then [] else parse_lines [] (listing_lines (stdout result)))"

subsection \<open>\<open>get_directory_summary\<close>\<close>

text \<open>
  The two shapes of the returned dictionary. \<open>Inaccessible\<close> is
  \<open>{"path", "accessible": False, "error"}\<close>; \<open>Accessible\<close> is
  \<open>{"path", "accessible": True, "total_items", "directories", "files", "total_size",
  "largest_files"}\<close>.
\<close>

datatype summary =
  Inaccessible string string
| Accessible string nat nat nat string "file_info list"

fun accessible :: "summary \<Rightarrow> bool" where
  "accessible (Inaccessible p e) = False"
| "accessible (Accessible p n d f t l) = True"

fun summary_keys :: "summary \<Rightarrow> string list" where
  "summary_keys (Inaccessible p e) = [''path'', ''accessible'', ''error'']"
| "summary_keys (Accessible p n d f t l) =
     [''path'', ''accessible'', ''total_items'', ''directories'', ''files'', ''total_size'',
      ''largest_files'']"

fun error_of :: "summary \<Rightarrow> string option" where
  "error_of (Inaccessible p e) = Some e"
| "error_of (Accessible p n d f t l) = None"

fun total_items_of :: "summary \<Rightarrow> nat option" where
  "total_items_of (Inaccessible p e) = None"
| "total_items_of (Accessible p n d f t l) = Some n"

fun directories_of :: "summary \<Rightarrow> nat option" where
  "directories_of (Inaccessible p e) = None"
| "directories_of (Accessible p n d f t l) = Some d"

fun files_of :: "summary \<Rightarrow> nat option" where
  "files_of (Inaccessible p e) = None"
| "files_of (Accessible p n d f t l) = Some f"

fun total_size_of :: "summary \<Rightarrow> string option" where
  "total_size_of (Inaccessible p e) = None"
| "total_size_of (Accessible p n d f t l) = Some t"

fun largest_files_of :: "summary \<Rightarrow> file_info list option" where
  "largest_files_of (Inaccessible p e) = None"
| "largest_files_of (Accessible p n d f t l) = Some l"

text \<open>The body of the loop that adds one entry's size to \<open>total_size\<close>.\<close>

definition add_size :: "rat \<Rightarrow> string \<Rightarrow> py_error + rat" where
  "add_size total_size size_str =
     (if isdigit (remove_char CHR ''.'' size_str) then
        (if endswith size_str CHR ''K'' then
           (case py_float (butlast size_str) of Inl e \<Rightarrow> Inl e
            | Inr x \<Rightarrow> Inr (total_size + x * 1024))
         else if endswith size_str CHR ''M'' then
           (case py_float (butlast size_str) of Inl e \<Rightarrow> Inl e
            | Inr x \<Rightarrow> Inr (total_size + x * 1024 * 1024))
         else if endswith size_str CHR ''G'' then
           (case py_float (butlast size_str) of Inl e \<Rightarrow> Inl e
            | Inr x \<Rightarrow> Inr (total_size + x * 1024 * 1024 * 1024))
         else
           (case py_float size_str of Inl e \<Rightarrow> Inl e | Inr x \<Rightarrow> Inr (total_size + x)))
      else Inr total_size)"

fun sum_sizes :: "rat \<Rightarrow> file_info list \<Rightarrow> py_error + rat" where
  "sum_sizes total_size [] = Inr total_size"
| "sum_sizes total_size (f # fs) =
     (case add_size total_size (size_f f) of Inl e \<Rightarrow> Inl e | Inr t \<Rightarrow> sum_sizes t fs)"

text \<open>The conversion of the total to the human readable string.\<close>

definition human_size :: "rat \<Rightarrow> string" where
  "human_size total_size =
     (if 1024 * 1024 * 1024 < total_size then fmt_1f (total_size / (1024 * 1024 * 1024)) @ ''GB''
      else if 1024 * 1024 < total_size then fmt_1f (total_size / (1024 * 1024)) @ ''MB''
      else if 1024 < total_size then fmt_1f (total_size / 1024) @ ''KB''
      else show_int (py_int total_size) @ '' bytes'')"

text \<open>
  \<open>sorted(files, key=lambda x: self._parse_size(x['size']), reverse=True)[:3]\<close>.
  \<open>sorted\<close> computes the key of every element first, in order, so the first raising key
  raises; it is stable, and with \<open>reverse=True\<close> equal keys still keep their order, which
  is the stable ascending sort on the negated key.
\<close>

fun size_keys :: "file_info list \<Rightarrow> py_error + rat list" where
  "size_keys [] = Inr []"
| "size_keys (f # fs) =
     (case parse_size (size_f f) of Inl e \<Rightarrow> Inl e
      | Inr k \<Rightarrow> (case size_keys fs of Inl e \<Rightarrow> Inl e | Inr ks \<Rightarrow> Inr (k # ks)))"

definition largest_three :: "file_info list \<Rightarrow> py_error + file_info list" where
  "largest_three files =
     (case size_keys files of Inl e \<Rightarrow> Inl e
      | Inr ks \<Rightarrow> Inr (take 3 (map snd (sort_key (\<lambda>p. - fst p) (zip ks files)))))"

text \<open>
  The body of \<open>get_directory_summary\<close> after the call of \<open>list_directory\<close>; the
  \<open>except Exception\<close> handler turns a raised error into the inaccessible summary.
\<close>

definition summarize :: "string \<Rightarrow> file_info list \<Rightarrow> summary" where
  "summarize path files =
     (if files = [] then Inaccessible path ''Directory empty or access denied''
      else
        (let total_files = length files;
             total_dirs = length (filter (\<lambda>f. startswith (permissions f) ''d'') files);
             total_regular_files = total_files - total_dirs
         in case sum_sizes 0 files of
              Inl e \<Rightarrow> Inaccessible path (str_error e)
            | Inr total_size \<Rightarrow>
                (case largest_three files of
                   Inl e \<Rightarrow> Inaccessible path (str_error e)
                 | Inr largest \<Rightarrow> Accessible path total_files total_dirs total_regular_files
                                (human_size total_size) largest)))"

definition get_directory_summary :: "string \<Rightarrow> exec_result \<Rightarrow> summary" where
  "get_directory_summary path result = summarize path (list_directory result)"

subsection \<open>Notions used to state the properties\<close>


text \<open>\<open>_parse_size\<close> returns a value on the entry's size token.\<close>

definition size_parses :: "file_info \<Rightarrow> bool" where
  "size_parses f = (\<not> isl (parse_size (size_f f)))"

text \<open>The sort key of an entry whose size token parses.\<close>

definition size_key :: "file_info \<Rightarrow> rat" where
  "size_key f = (case parse_size (size_f f) of Inl e \<Rightarrow> 0 | Inr k \<Rightarrow> k)"

definition is_directory :: "file_info \<Rightarrow> bool" where
  "is_directory f = startswith (permissions f) ''d''"

text \<open>
  The formatting of the total in the words of the specification: among the units whose
  threshold the value strictly exceeds, the one with the largest threshold; the value
  divided by that threshold with one decimal; without such a unit, the whole number of
  bytes.
\<close>

definition size_units :: "(rat \<times> string) list" where
  "size_units = [(1024 ^ 3, ''GB''), (1024 ^ 2, ''MB''), (1024, ''KB'')]"

definition largest_unit :: "(rat \<times> string) list \<Rightarrow> rat \<times> string" where
  "largest_unit us = foldl (\<lambda>a b. if fst a < fst b then b else a) (hd us) (tl us)"

definition human_size_spec :: "rat \<Rightarrow> string" where
  "human_size_spec v =
     (case filter (\<lambda>u. fst u < v) size_units of
        [] \<Rightarrow> show_int (py_int v) @ '' bytes''
      | u # us \<Rightarrow> fmt_1f (v / fst (largest_unit (u # us))) @ snd (largest_unit (u # us)))"

text \<open>A text made of the given lines, one newline between two of them.\<close>

fun join_lines :: "string list \<Rightarrow> string" where
  "join_lines [] = []"
| "join_lines [l] = l"
| "join_lines (l # ls) = l @ [CHR 0x0A] @ join_lines ls"

section \<open>Evaluation on concrete inputs\<close>

lemmas string_defs =
  py_isspace_def ascii_digit_def py_isdigit_char_def isdigit_def remove_char_def
  endswith_def startswith_def lstrip_def rstrip_def strip_def py_split_def

lemmas number_defs =
  is_decimal_def digit_val_def digits_val_def dec_value_def py_float_def digit_char_def
  show_int_def py_int_def round_half_even_def fmt_1f_def Let_def

lemmas listing_defs =
  file_info_of_def skip_total_def listing_lines_def list_directory_def

lemmas summary_defs =
  parse_size_def add_size_def human_size_def largest_three_def summarize_def
  get_directory_summary_def

lemma floor_rat_numeral [simp]:
  "\<lfloor>numeral a / numeral b :: rat\<rfloor> = numeral a div numeral b"
  by (metis floor_divide_of_int_eq of_int_numeral)

section \<open>Facts about the guards\<close>

lemma not_digit_chars:
  "\<not> py_isdigit_char CHR ''K''" "\<not> py_isdigit_char CHR ''M''" "\<not> py_isdigit_char CHR ''G''"
  "\<not> py_isdigit_char CHR ''.''" "\<not> ascii_digit CHR ''.''"
  by (simp_all add: py_isdigit_char_def ascii_digit_def)

lemma suffix_not_isdigit:
  assumes "endswith s c" "\<not> py_isdigit_char c" "c \<noteq> CHR ''.''"
  shows "\<not> isdigit (remove_char CHR ''.'' s)"
proof
  assume d: "isdigit (remove_char CHR ''.'' s)"
  from assms have "c \<in> set (remove_char CHR ''.'' s)"
    by (auto simp: endswith_def remove_char_def)
  with d have "py_isdigit_char c" by (auto simp: isdigit_def list_all_iff)
  with assms show False by simp
qed

lemma isdigit_no_suffix:
  assumes "isdigit (remove_char CHR ''.'' s)"
  shows "\<not> endswith s CHR ''K''" "\<not> endswith s CHR ''M''" "\<not> endswith s CHR ''G''"
  using assms suffix_not_isdigit not_digit_chars by blast+


text \<open>The three suffix branches of the summing loop are never entered.\<close>

lemma add_size_eq:
  "add_size t s =
     (if isdigit (remove_char CHR ''.'' s)
      then (case py_float s of Inl e \<Rightarrow> Inl e | Inr x \<Rightarrow> Inr (t + x)) else Inr t)"
proof (cases "isdigit (remove_char CHR ''.'' s)")
  case True
  then show ?thesis by (simp add: add_size_def isdigit_no_suffix)
next
  case False
  then show ?thesis by (simp add: add_size_def)
qed


lemma remove_char_id: "c \<notin> set s \<Longrightarrow> remove_char c s = s"
  by (auto simp: remove_char_def filter_id_conv)

lemma isdigit_no_char: "isdigit s \<Longrightarrow> \<not> py_isdigit_char c \<Longrightarrow> c \<notin> set s"
  by (auto simp: isdigit_def list_all_iff)

lemma parse_size_plain:
  assumes "isdigit (remove_char CHR ''.'' s)"
  shows "parse_size s = py_float s"
proof -
  let ?r = "remove_char CHR ''.'' s"
  have "remove_char CHR ''G'' (remove_char CHR ''M'' (remove_char CHR ''K'' ?r)) = ?r"
    using assms by (simp add: remove_char_id isdigit_no_char not_digit_chars)
  moreover have "s \<noteq> []" using assms by (auto simp: isdigit_def remove_char_def)
  ultimately show ?thesis using assms by (simp add: parse_size_def isdigit_no_suffix)
qed

lemma add_size_no_raise:
  assumes "\<not> isl (parse_size s)" shows "\<not> isl (add_size t s)"
proof (cases "isdigit (remove_char CHR ''.'' s)")
  case True
  with assms show ?thesis
    by (cases "py_float s") (simp_all add: add_size_eq parse_size_plain)
next
  case False
  then show ?thesis by (simp add: add_size_eq)
qed


section \<open>Facts about the loops of the summary\<close>

lemma sum_sizes_no_raise:
  "list_all size_parses files \<Longrightarrow> \<not> isl (sum_sizes t files)"
proof (induction files arbitrary: t)
  case Nil
  then show ?case by simp
next
  case (Cons f fs)
  then have "\<not> isl (add_size t (size_f f))"
    by (simp add: size_parses_def add_size_no_raise)
  then obtain t' where "add_size t (size_f f) = Inr t'"
    by (cases "add_size t (size_f f)") auto
  with Cons show ?case by simp
qed


lemma size_keys_parses:
  "list_all size_parses files \<Longrightarrow> size_keys files = Inr (map size_key files)"
proof (induction files)
  case Nil
  then show ?case by simp
next
  case (Cons f fs)
  then obtain k where "parse_size (size_f f) = Inr k"
    by (cases "parse_size (size_f f)") (auto simp: size_parses_def)
  with Cons show ?case by (simp add: size_key_def)
qed

lemma size_keys_raises:
  "\<not> list_all size_parses files \<Longrightarrow> isl (size_keys files)"
  by (induction files) (auto simp: size_parses_def split: sum.splits)

lemma insort_key_map:
  "insort_key f (h x) (map h xs) = map h (insort_key (\<lambda>y. f (h y)) x xs)"
  by (induction xs) auto

lemma sort_key_map:
  "sort_key f (map h xs) = map h (sort_key (\<lambda>y. f (h y)) xs)"
  by (induction xs) (auto simp: insort_key_map)

lemma largest_three_parses:
  assumes "list_all size_parses files"
  shows "largest_three files = Inr (take 3 (sort_key (\<lambda>f. - size_key f) files))"
proof -
  have "zip (map size_key files) files = map (\<lambda>f. (size_key f, f)) files"
    by (induction files) auto
  then have "map snd (sort_key (\<lambda>p. - fst p) (zip (map size_key files) files)) =
      sort_key (\<lambda>f. - size_key f) files"
    by (simp add: sort_key_map comp_def)
  then show ?thesis using assms by (simp add: largest_three_def size_keys_parses)
qed

lemma accessible_iff:
  "accessible (summarize path files) = (files \<noteq> [] \<and> list_all size_parses files)"
proof (cases "files \<noteq> [] \<and> list_all size_parses files")
  case True
  then obtain t where "sum_sizes 0 files = Inr t"
    using sum_sizes_no_raise[of files 0] by (cases "sum_sizes 0 files") auto
  with True show ?thesis by (simp add: summarize_def largest_three_parses Let_def)
next
  case False
  then show ?thesis
    using size_keys_raises[of files]
    by (auto simp: summarize_def largest_three_def Let_def split: sum.splits)
qed

lemma summarize_parses:
  assumes "files \<noteq> []" "list_all size_parses files"
  shows "\<exists>t. sum_sizes 0 files = Inr t \<and>
     summarize path files =
       Accessible path (length files) (length (filter is_directory files))
         (length files - length (filter is_directory files)) (human_size t)
         (take 3 (sort_key (\<lambda>f. - size_key f) files))"
proof -
  obtain t where "sum_sizes 0 files = Inr t"
    using assms sum_sizes_no_raise[of files 0] by (cases "sum_sizes 0 files") auto
  with assms show ?thesis
    by (simp add: summarize_def largest_three_parses is_directory_def[abs_def] Let_def)
qed

section \<open>Facts about splitting and trimming\<close>

lemma split_ws_snoc_space:
  "py_isspace c \<Longrightarrow> split_ws cur (s @ [c]) = split_ws cur s"
  by (induction s arbitrary: cur) auto

lemma rstrip_snoc:
  "rstrip (s @ [c]) = (if py_isspace c then rstrip s else s @ [c])"
  by (simp add: rstrip_def)

lemma py_split_rstrip: "py_split (rstrip s) = py_split s"
proof (induction s rule: rev_induct)
  case Nil
  then show ?case by (simp add: rstrip_def)
next
  case (snoc c s)
  then show ?case by (simp add: rstrip_snoc py_split_def split_ws_snoc_space)
qed

lemma py_split_lstrip: "py_split (lstrip s) = py_split s"
  by (induction s) (auto simp: lstrip_def py_split_def)

lemma py_split_strip: "py_split (strip s) = py_split s"
  by (simp add: strip_def py_split_rstrip py_split_lstrip)

lemma py_split_blank: "strip s = [] \<Longrightarrow> py_split s = []"
  using py_split_strip[of s] by (simp add: py_split_def)

lemma split_ws_all_space: "list_all py_isspace s \<Longrightarrow> split_ws [] s = []"
  by (induction s) auto

lemma set_rstrip: "set (rstrip s) \<subseteq> set s"
  using set_dropWhileD[of _ py_isspace "rev s"] by (auto simp: rstrip_def)

lemma rstrip_append:
  "\<not> list_all py_isspace b \<Longrightarrow> rstrip (a @ b) = a @ rstrip b"
  by (auto simp: rstrip_def list_all_iff)

lemma rstrip_append_space:
  "list_all py_isspace b \<Longrightarrow> rstrip (a @ b) = rstrip a"
  using dropWhile_append2[of "rev b" py_isspace "rev a"] by (simp add: rstrip_def list_all_iff)

text \<open>The loop keeps one entry for each line of at least nine tokens, in order.\<close>

lemma parse_lines_eq:
  "parse_lines files lines =
     files @ map file_info_of (filter (\<lambda>parts. 9 \<le> length parts) (map py_split lines))"
proof (induction lines arbitrary: files)
  case Nil
  then show ?case by simp
next
  case (Cons line lines)
  show ?case
  proof (cases "strip line = []")
    case True
    then have "py_split line = []" by (rule py_split_blank)
    with True Cons show ?thesis by simp
  next
    case False
    with Cons show ?thesis by simp
  qed
qed

lemma split_on_no_sep: "sep \<notin> set a \<Longrightarrow> split_on sep a = [a]"
  by (induction a) auto

lemma split_on_append:
  "sep \<notin> set a \<Longrightarrow> split_on sep (a @ sep # b) = a # split_on sep b"
  by (induction a) auto

lemma join_lines_Cons:
  "join_lines (l # ls) = l @ concat (map (\<lambda>x. CHR 0x0A # x) ls)"
  by (induction ls arbitrary: l) auto

lemma split_on_join_lines:
  "ls \<noteq> [] \<Longrightarrow> \<forall>l\<in>set ls. CHR 0x0A \<notin> set l \<Longrightarrow> split_on CHR 0x0A (join_lines ls) = ls"
proof (induction ls rule: join_lines.induct)
  case 1
  then show ?case by simp
next
  case (2 l)
  then show ?case by (simp add: split_on_no_sep)
next
  case (3 l v va)
  then show ?case by (simp add: split_on_append)
qed

lemma split_on_not_Nil: "split_on sep s \<noteq> []"
  by (induction s) (auto split: list.splits)

lemma split_on_snoc:
  "split_on sep (s @ [c]) =
     (if c = sep then split_on sep s @ [[]]
      else butlast (split_on sep s) @ [last (split_on sep s) @ [c]])"
proof (induction s)
  case Nil
  then show ?case by simp
next
  case (Cons a s)
  obtain l ls where r: "split_on sep s = l # ls"
    using split_on_not_Nil[of sep s] by (cases "split_on sep s") auto
  show ?case
  proof (cases "c = sep")
    case True
    with Cons r show ?thesis by simp
  next
    case False
    with Cons r show ?thesis by (cases ls) auto
  qed
qed

text \<open>
  Trimming the text changes its lines only by blank lines at both ends and by blanks
  around the first and the last line, so it changes no token of a line.
\<close>

lemma tokens_lstrip:
  assumes "\<not> P []"
  shows "filter P (map py_split (split_on CHR 0x0A (lstrip t))) =
         filter P (map py_split (split_on CHR 0x0A t))"
proof (induction t)
  case Nil
  then show ?case by (simp add: lstrip_def)
next
  case (Cons c cs)
  show ?case
  proof (cases "py_isspace c")
    case False
    then show ?thesis by (simp add: lstrip_def)
  next
    case True
    obtain l ls where r: "split_on CHR 0x0A cs = l # ls"
      using split_on_not_Nil[of "CHR 0x0A" cs] by (cases "split_on CHR 0x0A cs") auto
    have "filter P (map py_split (split_on CHR 0x0A (c # cs))) =
          filter P (map py_split (split_on CHR 0x0A cs))"
      using True r assms by (simp add: py_split_def)
    with Cons True show ?thesis by (simp add: lstrip_def)
  qed
qed

lemma tokens_rstrip:
  assumes "\<not> P []"
  shows "filter P (map py_split (split_on CHR 0x0A (rstrip t))) =
         filter P (map py_split (split_on CHR 0x0A t))"
proof (induction t rule: rev_induct)
  case Nil
  then show ?case by (simp add: rstrip_def)
next
  case (snoc c s)
  show ?case
  proof (cases "py_isspace c")
    case False
    then show ?thesis by (simp add: rstrip_snoc)
  next
    case True
    let ?X = "split_on CHR 0x0A s"
    have x: "?X = butlast ?X @ [last ?X]" using split_on_not_Nil[of "CHR 0x0A" s] by simp
    have "map py_split (butlast ?X @ [last ?X @ [c]]) = map py_split (butlast ?X @ [last ?X])"
      using True by (simp add: py_split_def split_ws_snoc_space)
    then have "map py_split (butlast ?X @ [last ?X @ [c]]) = map py_split ?X"
      using x by simp
    then have "filter P (map py_split (split_on CHR 0x0A (s @ [c]))) =
          filter P (map py_split ?X)"
      using assms by (simp add: split_on_snoc py_split_def)
    with snoc True show ?thesis by (simp add: rstrip_snoc)
  qed
qed

lemma tokens_strip:
  "\<not> P [] \<Longrightarrow> filter P (map py_split (split_on CHR 0x0A (strip t))) =
         filter P (map py_split (split_on CHR 0x0A t))"
  by (simp add: strip_def tokens_rstrip tokens_lstrip)

section \<open>The size parser\<close>

text \<open>
  C9. The size parser gives 512 for \<open>512\<close>, 1536 for \<open>1.5K\<close>, 2097152 for \<open>2M\<close>,
  1073741824 for \<open>1G\<close>, and 0 for the empty string and for \<open>abc\<close>.
\<close>

theorem parse_size_table:
  "parse_size ''512'' = Inr 512 \<and>
   parse_size ''1.5K'' = Inr 1536 \<and>
   parse_size ''2M'' = Inr 2097152 \<and>
   parse_size ''1G'' = Inr 1073741824 \<and>
   parse_size '''' = Inr 0 \<and>
   parse_size ''abc'' = Inr 0"
  by (simp add: string_defs number_defs summary_defs)

text \<open>
  C2. The claim is that \<open>_parse_size\<close> never raises and gives 0 for every token that is
  not a number with at most one decimal point and an optional suffix, \<open>1.2.3\<close> among
  them. The guard of \<open>_parse_size\<close> removes every dot before its \<open>isdigit\<close> test, so
  \<open>1.2.3\<close> passes it and reaches \<open>float\<close>, which raises \<open>ValueError\<close>; a doubled suffix
  as in \<open>1KK\<close> does the same.
\<close>

theorem parse_size_raises:
  "parse_size ''1.2.3'' = Inl (ValueError ''1.2.3'') \<and>
   parse_size ''1KK'' = Inl (ValueError ''1K'')"
  by (simp add: string_defs number_defs summary_defs)

section \<open>The total size\<close>

text \<open>
  C1. The claim is that the total is the sum of \<open>_parse_size\<close> over the entries,
  suffixed tokens such as \<open>1.5K\<close> included. The guard of the summing loop removes only
  the dots before its \<open>isdigit\<close> test, so a token with a suffix never enters the
  branches written for it: a listing of one file of size \<open>1.5K\<close>, which
  \<open>_parse_size\<close> values at 1536 bytes, is reported with a total of \<open>0 bytes\<close>.
\<close>

theorem suffixed_size_not_summed:
  "total_size_of (get_directory_summary ''/data''
      \<lparr>stdout = ''-rw-r--r-- 1 root root 1.5K Jan 1 00:00 f'', stderr = [], exit_code = 0\<rparr>)
     = Some ''0 bytes'' \<and>
   parse_size ''1.5K'' = Inr 1536 \<and>
   human_size 1536 = ''1.5KB''"
  by (simp add: string_defs number_defs listing_defs summary_defs show_nat.simps)

section \<open>The summary of an empty listing\<close>

text \<open>
  C8. When the parsed entry sequence is empty, the summary is the inaccessible one:
  its flag is false, its error is the text \<open>Directory empty or access denied\<close>, and its
  only keys are the path, the flag and the error, so it carries no count and no size.
  An empty sequence arises from a failed command as well as from an empty output.
\<close>

theorem empty_listing_summary:
  "summarize path [] = Inaccessible path ''Directory empty or access denied'' \<and>
   accessible (summarize path []) = False \<and>
   error_of (summarize path []) = Some ''Directory empty or access denied'' \<and>
   summary_keys (summarize path []) = [''path'', ''accessible'', ''error''] \<and>
   total_items_of (summarize path []) = None \<and>
   directories_of (summarize path []) = None \<and>
   files_of (summarize path []) = None \<and>
   total_size_of (summarize path []) = None \<and>
   largest_files_of (summarize path []) = None \<and>
   get_directory_summary path \<lparr>stdout = out, stderr = err, exit_code = 1\<rparr>
     = Inaccessible path ''Directory empty or access denied'' \<and>
   get_directory_summary path \<lparr>stdout = [], stderr = err, exit_code = 0\<rparr>
     = Inaccessible path ''Directory empty or access denied''"
  by (simp add: summarize_def get_directory_summary_def list_directory_def listing_lines_def
      skip_total_def strip_def lstrip_def rstrip_def startswith_def)

section \<open>Which size tokens reach the total\<close>



section \<open>The counts of the summary\<close>

text \<open>
  C10. The claim is that the summary of every non-empty entry sequence satisfies
  directories + files = total items, the total being the number of entries. The
  summing loop lets the size token \<open>1.2.3\<close> pass its guard and calls \<open>float\<close> on it,
  which raises; the handler of \<open>get_directory_summary\<close> then returns the
  inaccessible summary. So a listing of one entry with that size token has a summary
  without any count, although other malformed size tokens are skipped.
\<close>

theorem counts_absent_on_raising_token:
  "length (list_directory
      \<lparr>stdout = ''-rw-r--r-- 1 root root 1.2.3 Jan 1 00:00 f'', stderr = [], exit_code = 0\<rparr>) = 1 \<and>
   get_directory_summary ''/data''
      \<lparr>stdout = ''-rw-r--r-- 1 root root 1.2.3 Jan 1 00:00 f'', stderr = [], exit_code = 0\<rparr>
     = Inaccessible ''/data'' (''could not convert string to float: '' @ [CHR 0x27] @ ''1.2.3'' @ [CHR 0x27]) \<and>
   total_items_of (get_directory_summary ''/data''
      \<lparr>stdout = ''-rw-r--r-- 1 root root 1.2.3 Jan 1 00:00 f'', stderr = [], exit_code = 0\<rparr>)
     = None \<and>
   get_directory_summary ''/data''
      \<lparr>stdout = ''-rw-r--r-- 1 root root abc Jan 1 00:00 f'', stderr = [], exit_code = 0\<rparr>
     = Accessible ''/data'' 1 0 1 ''0 bytes''
         [\<lparr>permissions = ''-rw-r--r--'', links = ''1'', owner = ''root'', group_f = ''root'',
           size_f = ''abc'', month = ''Jan'', day = ''1'', time_f = ''00:00'', name_f = ''f''\<rparr>]"
  by (simp add: string_defs number_defs listing_defs summary_defs show_nat.simps)

section \<open>The largest files\<close>

text \<open>
  C5. The claim is that the summary of every non-empty entry sequence ranks the
  entries by descending \<open>_parse_size\<close> of the size token, equal values in their
  original order, and keeps the first three. A listing of two entries, one of them
  with the size token \<open>1.2.3\<close>, is not empty, but \<open>float\<close> raises on that token past
  the guard and the summary returned is the inaccessible one, which has no ranking.
\<close>

theorem largest_files_absent_on_raising_token:
  "list_directory
      \<lparr>stdout = ''-rw-r--r-- 1 root root 2M Jan 1 00:00 big'' @ [CHR 0x0A] @
                ''-rw-r--r-- 1 root root 1.2.3 Jan 1 00:00 odd'',
       stderr = [], exit_code = 0\<rparr> \<noteq> [] \<and>
   largest_files_of (get_directory_summary ''/data''
      \<lparr>stdout = ''-rw-r--r-- 1 root root 2M Jan 1 00:00 big'' @ [CHR 0x0A] @
                ''-rw-r--r-- 1 root root 1.2.3 Jan 1 00:00 odd'',
       stderr = [], exit_code = 0\<rparr>) = None \<and>
   accessible (get_directory_summary ''/data''
      \<lparr>stdout = ''-rw-r--r-- 1 root root 2M Jan 1 00:00 big'' @ [CHR 0x0A] @
                ''-rw-r--r-- 1 root root 1.2.3 Jan 1 00:00 odd'',
       stderr = [], exit_code = 0\<rparr>) = False"
  by (simp add: string_defs number_defs listing_defs summary_defs)

section \<open>The human readable total\<close>

text \<open>
  C6. The formatting of the total picks, among GB, MB and KB, the largest unit whose
  threshold (1024 cubed, 1024 squared, 1024) the value strictly exceeds, and shows the
  value divided by that threshold with one decimal; a value that exceeds no threshold
  is shown as a whole number followed by \<open>bytes\<close>. A total of exactly 1024 is
  \<open>1024 bytes\<close> and a total of 1025 is \<open>1.0KB\<close>, also when they are the totals of a
  listing.
\<close>

theorem human_size_units:
  "human_size v = human_size_spec v \<and>
   (\<exists>i d. d < 10 \<and> fmt_1f x = i @ ''.'' @ [digit_char d]) \<and>
   human_size 1024 = ''1024 bytes'' \<and>
   human_size 1025 = ''1.0KB'' \<and>
   total_size_of (get_directory_summary ''/data''
      \<lparr>stdout = ''-rw-r--r-- 1 root root 1024 Jan 1 00:00 f'', stderr = [], exit_code = 0\<rparr>)
     = Some ''1024 bytes'' \<and>
   total_size_of (get_directory_summary ''/data''
      \<lparr>stdout = ''-rw-r--r-- 1 root root 1025 Jan 1 00:00 f'', stderr = [], exit_code = 0\<rparr>)
     = Some ''1.0KB''"
proof (intro conjI)
  consider "1024 ^ 3 < v" | "v \<le> 1024 ^ 3" "1024 ^ 2 < v" | "v \<le> 1024 ^ 2" "1024 < v"
    | "v \<le> 1024"
    by linarith
  then show "human_size v = human_size_spec v"
  proof cases
    case 1
    then show ?thesis
      by (simp add: human_size_def human_size_spec_def size_units_def largest_unit_def)
  next
    case 2
    then show ?thesis
      by (simp add: human_size_def human_size_spec_def size_units_def largest_unit_def)
  next
    case 3
    then show ?thesis
      by (simp add: human_size_def human_size_spec_def size_units_def largest_unit_def)
  next
    case 4
    then show ?thesis
      by (simp add: human_size_def human_size_spec_def size_units_def largest_unit_def)
  qed
next
  have "show_nat (nat (round_half_even (\<bar>x\<bar> * 10)) mod 10) =
      [digit_char (nat (round_half_even (\<bar>x\<bar> * 10)) mod 10)]"
    by (simp add: show_nat.simps)
  then have "nat (round_half_even (\<bar>x\<bar> * 10)) mod 10 < 10 \<and>
      fmt_1f x = ((if x < 0 then ''-'' else []) @
        show_nat (nat (round_half_even (\<bar>x\<bar> * 10)) div 10)) @ ''.'' @
        [digit_char (nat (round_half_even (\<bar>x\<bar> * 10)) mod 10)]"
    by (simp add: fmt_1f_def Let_def)
  then show "\<exists>i d. d < 10 \<and> fmt_1f x = i @ ''.'' @ [digit_char d]"
    by blast
next
  show "human_size 1024 = ''1024 bytes''"
    by (simp add: human_size_def number_defs show_nat.simps)
next
  show "human_size 1025 = ''1.0KB''"
    by (simp add: human_size_def number_defs show_nat.simps)
next
  show "total_size_of (get_directory_summary ''/data''
      \<lparr>stdout = ''-rw-r--r-- 1 root root 1024 Jan 1 00:00 f'', stderr = [], exit_code = 0\<rparr>)
     = Some ''1024 bytes''"
    by (simp add: string_defs number_defs listing_defs summary_defs show_nat.simps)
next
  show "total_size_of (get_directory_summary ''/data''
      \<lparr>stdout = ''-rw-r--r-- 1 root root 1025 Jan 1 00:00 f'', stderr = [], exit_code = 0\<rparr>)
     = Some ''1.0KB''"
    by (simp add: string_defs number_defs listing_defs summary_defs show_nat.simps)
qed

section \<open>The entries of a listing\<close>

text \<open>
  C4, as stated, lets every non-blank line of at least nine tokens yield an entry. The
  first line of the trimmed text is dropped when it starts with \<open>total\<close>, however
  many tokens it has.
\<close>

theorem total_line_of_nine_tokens_counterexample:
  "strip ''total 1 2 3 4 5 6 7 8'' \<noteq> [] \<and>
   length (py_split ''total 1 2 3 4 5 6 7 8'') = 9 \<and>
   list_directory \<lparr>stdout = ''total 1 2 3 4 5 6 7 8'', stderr = [], exit_code = 0\<rparr> = []"
  by (simp add: string_defs listing_defs)

text \<open>
  C4, amended. The lines of a listing are the lines of the trimmed text without a
  first line that starts with \<open>total\<close>. Each of them yields exactly one entry if and
  only if it splits into at least nine tokens, the others yield none and no error;
  tokens 0 to 7 are the permissions, links, owner, group, size, month, day and time of
  the entry, and its name is the tokens from index 8 on joined by single spaces; the
  entries are in the order of their lines. When no such first line is dropped, the
  same holds of the lines of the raw text.
\<close>

theorem listing_entries:
  "list_directory \<lparr>stdout = out, stderr = err, exit_code = 0\<rparr> =
     map (\<lambda>parts. \<lparr>permissions = parts ! 0, links = parts ! 1, owner = parts ! 2,
                    group_f = parts ! 3, size_f = parts ! 4, month = parts ! 5,
                    day = parts ! 6, time_f = parts ! 7,
                    name_f = join_space (drop 8 parts)\<rparr>)
       (filter (\<lambda>parts. 9 \<le> length parts) (map py_split (listing_lines out))) \<and>
   listing_lines out =
     (if startswith (hd (split_on CHR 0x0A (strip out))) ''total''
      then tl (split_on CHR 0x0A (strip out)) else split_on CHR 0x0A (strip out)) \<and>
   (\<not> startswith (hd (split_on CHR 0x0A (strip out))) ''total'' \<longrightarrow>
      list_directory \<lparr>stdout = out, stderr = err, exit_code = 0\<rparr> =
        map file_info_of
          (filter (\<lambda>parts. 9 \<le> length parts) (map py_split (split_on CHR 0x0A out))))"
proof (intro conjI impI)
  show "list_directory \<lparr>stdout = out, stderr = err, exit_code = 0\<rparr> =
     map (\<lambda>parts. \<lparr>permissions = parts ! 0, links = parts ! 1, owner = parts ! 2,
                    group_f = parts ! 3, size_f = parts ! 4, month = parts ! 5,
                    day = parts ! 6, time_f = parts ! 7,
                    name_f = join_space (drop 8 parts)\<rparr>)
       (filter (\<lambda>parts. 9 \<le> length parts) (map py_split (listing_lines out)))"
    by (simp add: list_directory_def parse_lines_eq file_info_of_def[abs_def])
next
  show "listing_lines out =
     (if startswith (hd (split_on CHR 0x0A (strip out))) ''total''
      then tl (split_on CHR 0x0A (strip out)) else split_on CHR 0x0A (strip out))"
    by (simp add: listing_lines_def skip_total_def split_on_not_Nil)
next
  assume "\<not> startswith (hd (split_on CHR 0x0A (strip out))) ''total''"
  then have "listing_lines out = split_on CHR 0x0A (strip out)"
    by (simp add: listing_lines_def skip_total_def)
  then show "list_directory \<lparr>stdout = out, stderr = err, exit_code = 0\<rparr> =
        map file_info_of
          (filter (\<lambda>parts. 9 \<le> length parts) (map py_split (split_on CHR 0x0A out)))"
    by (simp add: list_directory_def parse_lines_eq tokens_strip)
qed

theorem listing_entries_witness:
  "\<not> startswith (hd (split_on CHR 0x0A (strip
       ([CHR 0x0A] @ ''  -rw-r--r-- 1 ann staff 12 Mar  3 09:15 my report  final.txt'' @
        [CHR 0x0A] @ ''drwx 2 ann staff'' @ [CHR 0x0A])))) ''total'' \<and>
   list_directory
     \<lparr>stdout = [CHR 0x0A] @ ''  -rw-r--r-- 1 ann staff 12 Mar  3 09:15 my report  final.txt'' @
                [CHR 0x0A] @ ''drwx 2 ann staff'' @ [CHR 0x0A],
      stderr = [], exit_code = 0\<rparr> =
     [\<lparr>permissions = ''-rw-r--r--'', links = ''1'', owner = ''ann'', group_f = ''staff'',
       size_f = ''12'', month = ''Mar'', day = ''3'', time_f = ''09:15'',
       name_f = ''my report final.txt''\<rparr>]"
proof -
  let ?out = "[CHR 0x0A] @ ''  -rw-r--r-- 1 ann staff 12 Mar  3 09:15 my report  final.txt'' @
                [CHR 0x0A] @ ''drwx 2 ann staff'' @ [CHR 0x0A]"
  have h: "\<not> startswith (hd (split_on CHR 0x0A (strip ?out))) ''total''"
    by (simp add: string_defs)
  have e: "map file_info_of
          (filter (\<lambda>parts. 9 \<le> length parts) (map py_split (split_on CHR 0x0A ?out))) =
     [\<lparr>permissions = ''-rw-r--r--'', links = ''1'', owner = ''ann'', group_f = ''staff'',
       size_f = ''12'', month = ''Mar'', day = ''3'', time_f = ''09:15'',
       name_f = ''my report final.txt''\<rparr>]"
    by (simp add: string_defs file_info_of_def)
  have l: "list_directory \<lparr>stdout = ?out, stderr = [], exit_code = 0\<rparr> =
      map file_info_of
        (filter (\<lambda>parts. 9 \<le> length parts) (map py_split (split_on CHR 0x0A ?out)))"
    using h listing_entries [of ?out "[]"] by blast
  show ?thesis
  proof (rule conjI)
    show "\<not> startswith (hd (split_on CHR 0x0A (strip ?out))) ''total''" by (rule h)
    show "list_directory \<lparr>stdout = ?out, stderr = [], exit_code = 0\<rparr> =
     [\<lparr>permissions = ''-rw-r--r--'', links = ''1'', owner = ''ann'', group_f = ''staff'',
       size_f = ''12'', month = ''Mar'', day = ''3'', time_f = ''09:15'',
       name_f = ''my report final.txt''\<rparr>]"
      by (simp only: l e)
  qed
qed

section \<open>The total line\<close>

lemma startswith_total_48:
  assumes "startswith h ''total 48''"
  shows "lstrip (h @ x) = h @ x" "startswith h ''total''" "startswith (rstrip h) ''total''"
proof -
  from assms have "take (length ''total 48'') h = ''total 48''"
    unfolding startswith_def .
  then have "h = ''total 48'' @ drop (length ''total 48'') h"
    by (metis append_take_drop_id)
  then obtain t where t: "h = ''total 48'' @ t" ..
  show "lstrip (h @ x) = h @ x" by (simp add: t lstrip_def py_isspace_def)
  show "startswith h ''total''" by (simp add: t startswith_def)
  show "startswith (rstrip h) ''total''"
  proof (cases "list_all py_isspace t")
    case True
    then have "rstrip h = rstrip ''total 48''" unfolding t by (rule rstrip_append_space)
    then show ?thesis by (simp add: rstrip_def py_isspace_def startswith_def)
  next
    case False
    then have "rstrip h = ''total 48'' @ rstrip t" unfolding t by (rule rstrip_append)
    then show ?thesis by (simp add: startswith_def)
  qed
qed

lemma total_rows_length:
  assumes h: "startswith h ''total 48''" "CHR 0x0A \<notin> set h"
    and rows: "\<forall>r\<in>set rows. CHR 0x0A \<notin> set r \<and> 9 \<le> length (py_split r)"
  shows "length (list_directory \<lparr>stdout = join_lines (h # rows), stderr = err, exit_code = 0\<rparr>)
         = length rows"
proof (cases rows rule: rev_cases)
  case Nil
  have "CHR 0x0A \<notin> set (rstrip h)" using h(2) set_rstrip[of h] by auto
  then have "split_on CHR 0x0A (rstrip h) = [rstrip h]" by (rule split_on_no_sep)
  moreover have "strip h = rstrip h"
    using startswith_total_48(1)[OF h(1), of "[]"] by (simp add: strip_def)
  ultimately show ?thesis
    using Nil startswith_total_48(3)[OF h(1)]
    by (simp add: list_directory_def listing_lines_def skip_total_def)
next
  case (snoc rs r)
  have r: "CHR 0x0A \<notin> set r" "9 \<le> length (py_split r)" using rows snoc by auto
  then have ns: "\<not> list_all py_isspace r"
    using split_ws_all_space[of r] by (auto simp: py_split_def)
  have j: "join_lines (h # rows) = (h @ concat (map (\<lambda>x. CHR 0x0A # x) rs) @ [CHR 0x0A]) @ r"
    by (simp add: join_lines_Cons snoc)
  have "lstrip (join_lines (h # rows)) = join_lines (h # rows)"
    using startswith_total_48(1)[OF h(1)] by (simp add: join_lines_Cons)
  then have "strip (join_lines (h # rows)) = rstrip (join_lines (h # rows))"
    by (simp add: strip_def)
  also have "\<dots> = rstrip ((h @ concat (map (\<lambda>x. CHR 0x0A # x) rs) @ [CHR 0x0A]) @ r)"
    by (simp only: j)
  also have "\<dots> = (h @ concat (map (\<lambda>x. CHR 0x0A # x) rs) @ [CHR 0x0A]) @ rstrip r"
    by (rule rstrip_append[OF ns])
  also have "\<dots> = join_lines (h # rs @ [rstrip r])"
    by (simp add: join_lines_Cons)
  finally have s: "strip (join_lines (h # rows)) = join_lines (h # rs @ [rstrip r])" .
  have "\<forall>l\<in>set (h # rs @ [rstrip r]). CHR 0x0A \<notin> set l"
    using h(2) rows snoc set_rstrip[of r] by auto
  then have "split_on CHR 0x0A (join_lines (h # rs @ [rstrip r])) = h # rs @ [rstrip r]"
    by (intro split_on_join_lines) simp_all
  then have l: "listing_lines (join_lines (h # rows)) = rs @ [rstrip r]"
    using startswith_total_48(2)[OF h(1)] by (simp add: listing_lines_def s skip_total_def)
  have f: "filter (\<lambda>parts. 9 \<le> length parts) (map py_split (rs @ [rstrip r])) =
      map py_split (rs @ [rstrip r])"
    using rows snoc r by (auto simp: py_split_rstrip filter_id_conv)
  have e: "list_directory \<lparr>stdout = join_lines (h # rows), stderr = err, exit_code = 0\<rparr> =
      map file_info_of
        (filter (\<lambda>parts. 9 \<le> length parts) (map py_split (rs @ [rstrip r])))"
    by (simp add: list_directory_def l parse_lines_eq)
  show ?thesis unfolding e f by (simp add: snoc)
qed

text \<open>
  C7. When the first line of the trimmed listing text begins with \<open>total\<close>, that line
  is discarded and the entries are those of the other lines. In particular a text made
  of a line that starts with \<open>total 48\<close> and of N rows, each of at least nine tokens,
  parses to exactly N entries.
\<close>

theorem total_line_skipped:
  "(split_on CHR 0x0A (strip out) = l # ls \<and> startswith l ''total'' \<longrightarrow>
      list_directory \<lparr>stdout = out, stderr = err, exit_code = 0\<rparr> =
        map file_info_of (filter (\<lambda>parts. 9 \<le> length parts) (map py_split ls))) \<and>
   (startswith h ''total 48'' \<and> CHR 0x0A \<notin> set h \<and>
    list_all (\<lambda>r. CHR 0x0A \<notin> set r \<and> 9 \<le> length (py_split r)) rows \<longrightarrow>
      length (list_directory
                \<lparr>stdout = join_lines (h # rows), stderr = err, exit_code = 0\<rparr>)
        = length rows)"
proof (intro conjI impI)
  assume "split_on CHR 0x0A (strip out) = l # ls \<and> startswith l ''total''"
  then show "list_directory \<lparr>stdout = out, stderr = err, exit_code = 0\<rparr> =
        map file_info_of (filter (\<lambda>parts. 9 \<le> length parts) (map py_split ls))"
    by (simp add: list_directory_def listing_lines_def skip_total_def parse_lines_eq)
next
  assume "startswith h ''total 48'' \<and> CHR 0x0A \<notin> set h \<and>
    list_all (\<lambda>r. CHR 0x0A \<notin> set r \<and> 9 \<le> length (py_split r)) rows"
  then show "length (list_directory
                \<lparr>stdout = join_lines (h # rows), stderr = err, exit_code = 0\<rparr>)
        = length rows"
    by (intro total_rows_length) (simp_all add: list_all_iff)
qed

theorem total_line_skipped_witness:
  "startswith ''total 48'' ''total 48'' \<and> CHR 0x0A \<notin> set ''total 48'' \<and>
   list_all (\<lambda>r. CHR 0x0A \<notin> set r \<and> 9 \<le> length (py_split r))
     [''drwxr-xr-x 2 root root 4.0K Jan 1 00:00 logs'',
      ''-rw-r--r-- 1 root root 512 Jan 1 00:05 notes.txt''] \<and>
   split_on CHR 0x0A (strip (join_lines
     [''total 48'', ''drwxr-xr-x 2 root root 4.0K Jan 1 00:00 logs'',
      ''-rw-r--r-- 1 root root 512 Jan 1 00:05 notes.txt''])) =
     ''total 48'' # [''drwxr-xr-x 2 root root 4.0K Jan 1 00:00 logs'',
                    ''-rw-r--r-- 1 root root 512 Jan 1 00:05 notes.txt''] \<and>
   length (list_directory
     \<lparr>stdout = join_lines
        [''total 48'', ''drwxr-xr-x 2 root root 4.0K Jan 1 00:00 logs'',
         ''-rw-r--r-- 1 root root 512 Jan 1 00:05 notes.txt''],
      stderr = [], exit_code = 0\<rparr>) = 2 \<and>
   list_directory
     \<lparr>stdout = join_lines
        [''total 48'', ''drwxr-xr-x 2 root root 4.0K Jan 1 00:00 logs'',
         ''-rw-r--r-- 1 root root 512 Jan 1 00:05 notes.txt''],
      stderr = [], exit_code = 0\<rparr> =
     map file_info_of (filter (\<lambda>parts. 9 \<le> length parts) (map py_split
       [''drwxr-xr-x 2 root root 4.0K Jan 1 00:00 logs'',
        ''-rw-r--r-- 1 root root 512 Jan 1 00:05 notes.txt'']))"
proof -
  let ?rows = "[''drwxr-xr-x 2 root root 4.0K Jan 1 00:00 logs'',
                ''-rw-r--r-- 1 root root 512 Jan 1 00:05 notes.txt'']"
  have a: "startswith ''total 48'' ''total 48''" "startswith ''total 48'' ''total''"
    by (simp_all add: startswith_def)
  have b: "CHR 0x0A \<notin> set ''total 48''" by simp
  have c: "list_all (\<lambda>r. CHR 0x0A \<notin> set r \<and> 9 \<le> length (py_split r)) ?rows"
    by (simp add: py_split_def py_isspace_def)
  have d: "split_on CHR 0x0A (strip (join_lines (''total 48'' # ?rows))) = ''total 48'' # ?rows"
    by (simp add: strip_def lstrip_def rstrip_def py_isspace_def)
  from a b c d
    total_line_skipped [of "join_lines (''total 48'' # ?rows)" "''total 48''" ?rows "[]"
      "''total 48''" ?rows]
  show ?thesis by simp
qed

end
